theory Spec2Isabelle
  imports Main "HOL-Library.Sublist"
begin

section \<open>Data model of the audit toolkit (src/index.ts, src/crawler/sitemap-crawler.ts)\<close>

text \<open>
  The string-literal union \<open>'critical' | 'serious' | 'moderate' | 'minor'\<close> that types
  \<open>Violation.impact\<close> and the keys of \<open>bySeverity\<close>.
\<close>

datatype Severity = critical | serious | moderate | minor

text \<open>
  Interface \<open>Violation\<close>. The field \<open>id\<close> is named \<open>vid\<close> and the field \<open>help\<close> is
  named \<open>vhelp\<close> here; the other fields keep their names.
\<close>

record Violation =
  vid :: string
  impact :: Severity
  description :: string
  vhelp :: string
  helpUrl :: string
  wcagTags :: string
  nodeCount :: nat
  pageUrl :: string

text \<open>
  Interface \<open>PageResult\<close>. The optional field \<open>error\<close> is an option: \<open>None\<close> when the
  property is absent. \<open>scanTime\<close> (a difference of two clock readings) is left out; no
  other part of the program reads it.
\<close>

record PageResult =
  url :: string
  violations :: "Violation list"
  passes :: nat
  incomplete :: nat
  error :: "string option"

text \<open>The object literal \<open>bySeverity\<close>: four counters.\<close>

record BySeverity =
  n_critical :: nat
  n_serious :: nat
  n_moderate :: nat
  n_minor :: nat

text \<open>One element of \<open>topIssues\<close>: \<open>{ rule, count, impact }\<close>.\<close>

record TopIssue =
  rule :: string
  count :: nat
  issueImpact :: Severity

text \<open>
  Interface \<open>AuditSummary\<close>. Its numbers are array lengths and counters that start
  at 0 and are incremented: naturals.
\<close>

record AuditSummary =
  domain :: string
  scanDate :: string
  pagesScanned :: nat
  pagesWithErrors :: nat
  totalViolations :: nat
  bySeverity :: BySeverity
  topIssues :: "TopIssue list"
  allViolations :: "Violation list"

section \<open>Lead qualification\<close>

text \<open>The four lines the lead-qualification block can emit.\<close>

datatype LeadGrade = SKIP | C_LEAD | B_LEAD | A_LEAD

text \<open>
  \<open>printSummary\<close>, lines 248 to 260: the branch whose line goes to the console
  (A-LEAD, B-LEAD, C-LEAD or SKIP).
\<close>

definition printSummary :: "AuditSummary \<Rightarrow> LeadGrade" where
  "printSummary summary =
     (let totalIssues = totalViolations summary;
          criticalSerious = n_critical (bySeverity summary) + n_serious (bySeverity summary)
      in if criticalSerious \<ge> 10 \<or> totalIssues \<ge> 25 then A_LEAD
         else if criticalSerious \<ge> 5 \<or> totalIssues \<ge> 15 then B_LEAD
         else if totalIssues > 0 then C_LEAD
         else SKIP)"

text \<open>
  \<open>exportSummaryText\<close>, lines 318 to 327: the branch whose line is appended to the
  text of summary.txt.
\<close>

definition exportSummaryText :: "AuditSummary \<Rightarrow> LeadGrade" where
  "exportSummaryText summary =
     (let criticalSerious = n_critical (bySeverity summary) + n_serious (bySeverity summary)
      in if criticalSerious \<ge> 10 \<or> totalViolations summary \<ge> 25 then A_LEAD
         else if criticalSerious \<ge> 5 \<or> totalViolations summary \<ge> 15 then B_LEAD
         else if totalViolations summary > 0 then C_LEAD
         else SKIP)"

text \<open>The line each branch of \<open>exportSummaryText\<close> appends.\<close>

fun summaryTextLine :: "LeadGrade \<Rightarrow> string" where
  "summaryTextLine A_LEAD = ''A-LEAD: High priority target''"
| "summaryTextLine B_LEAD = ''B-LEAD: Medium priority target''"
| "summaryTextLine C_LEAD = ''C-LEAD: Low priority target''"
| "summaryTextLine SKIP = ''SKIP: Site appears compliant''"

text \<open>The order of the grades: Skip below C below B below A.\<close>

fun gradeLevel :: "LeadGrade \<Rightarrow> nat" where
  "gradeLevel SKIP = 0"
| "gradeLevel C_LEAD = 1"
| "gradeLevel B_LEAD = 2"
| "gradeLevel A_LEAD = 3"

text \<open>
  The threshold rule in the words of the specification (section 4.5), on the
  critical+serious count and the total: four rules in precedence order, first match wins.
\<close>

definition specLeadGrade :: "nat \<Rightarrow> nat \<Rightarrow> LeadGrade" where
  "specLeadGrade cs tot =
     (if cs \<ge> 10 \<or> tot \<ge> 25 then A_LEAD
      else if cs \<ge> 5 \<or> tot \<ge> 15 then B_LEAD
      else if tot \<ge> 1 then C_LEAD
      else SKIP)"

section \<open>Sitemap crawler (src/crawler/sitemap-crawler.ts)\<close>

text \<open>Interface \<open>CrawlResult\<close>; \<open>source\<close> is \<open>'sitemap' | 'fallback'\<close>.\<close>

datatype Source = sitemap | fallback

record CrawlResult =
  urls :: "string list"
  source :: Source
  totalFound :: nat
  filtered :: nat

text \<open>
  The parts of \<open>new URL(baseUrl)\<close> the program reads. The URL parser itself is a
  parameter \<open>parseUrl\<close> of the functions below: \<open>None\<close> when the constructor throws.
\<close>

record ParsedUrl =
  protocol :: string
  host :: string
  hostname :: string

text \<open>
  What \<open>await sitemap.fetch()\<close> does at one location: it throws, or it resolves to an
  object whose \<open>sites\<close> is an array (\<open>Some\<close>) or is missing (\<open>None\<close>).
\<close>

datatype Fetched = FetchThrows | FetchSites "string list option"

text \<open>The ways a run ends without a summary: \<open>new URL\<close> throws; the browser does.\<close>

datatype Fatal = InvalidUrl | BrowserFailed

text \<open>
  \<open>String.prototype.toLowerCase\<close> on the letters A to Z; URLs are taken as ASCII text,
  one \<open>char\<close> per code unit.
\<close>

definition toLowerChar :: "char \<Rightarrow> char" where
  "toLowerChar c =
     (case map_of (zip ''ABCDEFGHIJKLMNOPQRSTUVWXYZ'' ''abcdefghijklmnopqrstuvwxyz'') c of
        None \<Rightarrow> c
      | Some l \<Rightarrow> l)"

definition toLowerCase :: "string \<Rightarrow> string" where
  "toLowerCase s = map toLowerChar s"

definition endsWith :: "string \<Rightarrow> string \<Rightarrow> bool" where
  "endsWith s suf = (length suf \<le> length s \<and> drop (length s - length suf) s = suf)"

definition startsWith :: "string \<Rightarrow> string \<Rightarrow> bool" where
  "startsWith s pre = (take (length pre) s = pre)"

text \<open>The callback of \<open>allUrls.filter\<close>, lines 90 to 100.\<close>

definition isHtmlUrl :: "string \<Rightarrow> bool" where
  "isHtmlUrl u =
     (let lower = toLowerCase u
      in if endsWith lower ''.pdf'' then False
         else if endsWith lower ''.jpg'' \<or> endsWith lower ''.jpeg'' then False
         else if endsWith lower ''.png'' \<or> endsWith lower ''.gif'' then False
         else if endsWith lower ''.doc'' \<or> endsWith lower ''.docx'' then False
         else if endsWith lower ''.xls'' \<or> endsWith lower ''.xlsx'' then False
         else if endsWith lower ''.zip'' \<or> endsWith lower ''.rar'' then False
         else True)"

text \<open>
  \<open>xs.slice(0, n)\<close> for an integer \<open>n\<close>: a negative end counts from the end of the
  array, and the end is clamped to the array.
\<close>

definition sliceTo :: "'a list \<Rightarrow> int \<Rightarrow> 'a list" where
  "sliceTo xs n = (if n < 0 then take (nat (int (length xs) + n)) xs else take (nat n) xs)"

definition sitemapLocations :: "string \<Rightarrow> string list" where
  "sitemapLocations origin =
     [origin @ ''/sitemap.xml'',
      origin @ ''/sitemap_index.xml'',
      origin @ ''/sitemap/sitemap.xml'',
      origin @ ''/wp-sitemap.xml'']"

text \<open>
  The \<open>for\<close> loop over \<open>sitemapLocations\<close>, lines 59 to 76; the value is \<open>allUrls\<close> after
  the loop. A throwing fetch continues with the next location, a non-empty \<open>sites\<close>
  breaks out of the loop.
\<close>

fun probeSitemaps :: "(string \<Rightarrow> Fetched) \<Rightarrow> string list \<Rightarrow> string list" where
  "probeSitemaps fetch [] = []"
| "probeSitemaps fetch (sitemapUrl # rest) =
     (case fetch sitemapUrl of
        FetchThrows \<Rightarrow> probeSitemaps fetch rest
      | FetchSites None \<Rightarrow> probeSitemaps fetch rest
      | FetchSites (Some sites) \<Rightarrow>
          if length sites > 0 then sites else probeSitemaps fetch rest)"

definition getUrlsFromSitemap ::
  "(string \<Rightarrow> ParsedUrl option) \<Rightarrow> (string \<Rightarrow> Fetched) \<Rightarrow> string \<Rightarrow> int \<Rightarrow> Fatal + CrawlResult"
where
  "getUrlsFromSitemap parse fetch baseUrl maxPages =
     (case parse baseUrl of
        None \<Rightarrow> Inl InvalidUrl
      | Some u \<Rightarrow>
          let origin = protocol u @ ''//'' @ host u;
              allUrls = probeSitemaps fetch (sitemapLocations origin)
          in if length allUrls = 0
             then Inr \<lparr>urls = [baseUrl], source = fallback, totalFound = 1, filtered = 1\<rparr>
             else
               let htmlUrls = filter isHtmlUrl allUrls;
                   limitedUrls = sliceTo htmlUrls maxPages
               in Inr \<lparr>urls = limitedUrls, source = sitemap,
                        totalFound = length allUrls, filtered = length limitedUrls\<rparr>)"

section \<open>Page scanner (src/index.ts, scanPage)\<close>

text \<open>
  One entry of \<open>results.violations\<close> as the rule engine returns it. Its \<open>impact\<close> is one
  of the four levels, or null or missing (\<open>None\<close>); \<open>nodes\<close> is the array of affected
  DOM nodes.
\<close>

record AxeResult =
  ax_id :: string
  ax_impact :: "Severity option"
  ax_description :: string
  ax_help :: string
  ax_helpUrl :: string
  ax_tags :: "string list"
  ax_nodes :: "string list"

record AxeResults =
  ax_violations :: "AxeResult list"
  ax_passes :: "AxeResult list"
  ax_incomplete :: "AxeResult list"

text \<open>A thrown value: an \<open>Error\<close> instance with its message, or anything else.\<close>

datatype Thrown = ErrorObject string | OtherValue

text \<open>\<open>Array.prototype.join\<close> with a separator.\<close>

fun joinWith :: "string \<Rightarrow> string list \<Rightarrow> string" where
  "joinWith sep [] = []"
| "joinWith sep [x] = x"
| "joinWith sep (x # y # ys) = x @ sep @ joinWith sep (y # ys)"

text \<open>The callback of \<open>results.violations.map\<close>, lines 94 to 103.\<close>

definition toViolation :: "string \<Rightarrow> AxeResult \<Rightarrow> Violation" where
  "toViolation pageurl v =
     \<lparr>vid = ax_id v,
      impact = (case ax_impact v of None \<Rightarrow> minor | Some i \<Rightarrow> i),
      description = ax_description v,
      vhelp = ax_help v,
      helpUrl = ax_helpUrl v,
      wcagTags = joinWith '', '' (filter (\<lambda>t. startsWith t ''wcag'') (ax_tags v)),
      nodeCount = length (ax_nodes v),
      pageUrl = pageurl\<rparr>"

text \<open>The \<open>catch\<close> block of \<open>scanPage\<close>, lines 113 to 122.\<close>

definition failedPage :: "string \<Rightarrow> Thrown \<Rightarrow> PageResult" where
  "failedPage pageurl thrown =
     \<lparr>url = pageurl, violations = [], passes = 0, incomplete = 0,
      error = Some (case thrown of ErrorObject message \<Rightarrow> message
                                 | OtherValue \<Rightarrow> ''Unknown error'')\<rparr>"

text \<open>
  \<open>scanPage\<close>. The one shared browser page is a state of type \<open>'b\<close>, threaded through
  \<open>page.goto\<close> (which throws or not) and the analysis of the rule engine (which throws
  or returns results). The two fixed delays are not modelled.
\<close>

definition scanPage ::
  "('b \<Rightarrow> string \<Rightarrow> Thrown option \<times> 'b) \<Rightarrow> ('b \<Rightarrow> (Thrown + AxeResults) \<times> 'b)
     \<Rightarrow> 'b \<Rightarrow> string \<Rightarrow> PageResult \<times> 'b"
where
  "scanPage goto analyze page pageurl =
     (case goto page pageurl of
        (Some thrown, page1) \<Rightarrow> (failedPage pageurl thrown, page1)
      | (None, page1) \<Rightarrow>
          (case analyze page1 of
             (Inl thrown, page2) \<Rightarrow> (failedPage pageurl thrown, page2)
           | (Inr results, page2) \<Rightarrow>
               (\<lparr>url = pageurl,
                 violations = map (toViolation pageurl) (ax_violations results),
                 passes = length (ax_passes results),
                 incomplete = length (ax_incomplete results),
                 error = None\<rparr>, page2)))"

text \<open>Truthiness of the optional string \<open>result.error\<close>: present and not empty.\<close>

fun truthy :: "string option \<Rightarrow> bool" where
  "truthy None = False"
| "truthy (Some s) = (s \<noteq> [])"

section \<open>The audit run (src/index.ts, runFullAudit)\<close>

text \<open>
  The \<open>for\<close> loop of step 3, lines 155 to 177, with the arrays \<open>allResults\<close> and
  \<open>allViolations\<close> as accumulators; the value is both arrays and the browser page after
  the last URL.
\<close>

fun scanLoop ::
  "('b \<Rightarrow> string \<Rightarrow> Thrown option \<times> 'b) \<Rightarrow> ('b \<Rightarrow> (Thrown + AxeResults) \<times> 'b)
     \<Rightarrow> 'b \<Rightarrow> string list \<Rightarrow> PageResult list \<Rightarrow> Violation list
     \<Rightarrow> PageResult list \<times> Violation list \<times> 'b"
where
  "scanLoop goto analyze page [] allResults allViols = (allResults, allViols, page)"
| "scanLoop goto analyze page (u # rest) allResults allViols =
     (case scanPage goto analyze page u of
        (result, page') \<Rightarrow>
          scanLoop goto analyze page' rest (allResults @ [result])
            (if truthy (error result) then allViols
             else if length (violations result) > 0 then allViols @ violations result
             else allViols))"

text \<open>\<open>bySeverity[v.impact]++\<close>.\<close>

fun bumpSeverity :: "BySeverity \<Rightarrow> Severity \<Rightarrow> BySeverity" where
  "bumpSeverity b critical = b\<lparr>n_critical := n_critical b + 1\<rparr>"
| "bumpSeverity b serious = b\<lparr>n_serious := n_serious b + 1\<rparr>"
| "bumpSeverity b moderate = b\<lparr>n_moderate := n_moderate b + 1\<rparr>"
| "bumpSeverity b minor = b\<lparr>n_minor := n_minor b + 1\<rparr>"

text \<open>
  \<open>issueCount\<close> is a plain object used as a dictionary: its own properties, in insertion
  order, as an association list from rule identifier to \<open>(count, impact)\<close>. A read
  \<open>issueCount[k]\<close> of a key that is not an own property goes to \<open>Object.prototype\<close>,
  whose members are listed here; each of them is truthy.
\<close>

type_synonym IssueCount = "(string \<times> nat \<times> Severity) list"

definition objectPrototypeKeys :: "string list" where
  "objectPrototypeKeys =
     [''constructor'', ''__defineGetter__'', ''__defineSetter__'', ''hasOwnProperty'',
      ''__lookupGetter__'', ''__lookupSetter__'', ''isPrototypeOf'',
      ''propertyIsEnumerable'', ''toString'', ''valueOf'', ''__proto__'',
      ''toLocaleString'']"

text \<open>
  Lines 189 to 192. When \<open>v.id\<close> names a member of \<open>Object.prototype\<close> and is not an
  own property, \<open>issueCount[v.id]\<close> is truthy, no entry is created, and the increment
  lands on the inherited member: the own properties stay as they are.
\<close>

definition countIssue :: "IssueCount \<Rightarrow> Violation \<Rightarrow> IssueCount" where
  "countIssue ic v =
     (case map_of ic (vid v) of
        None \<Rightarrow>
          if vid v \<in> set objectPrototypeKeys then ic
          else ic @ [(vid v, 0 + 1, impact v)]
      | Some _ \<Rightarrow>
          map (\<lambda>(k, c, i). if k = vid v then (k, c + 1, i) else (k, c, i)) ic)"

text \<open>The body of \<open>allViolations.forEach\<close>, lines 187 to 193.\<close>

definition tallyStep :: "BySeverity \<times> IssueCount \<Rightarrow> Violation \<Rightarrow> BySeverity \<times> IssueCount" where
  "tallyStep acc v = (bumpSeverity (fst acc) (impact v), countIssue (snd acc) v)"

definition tally :: "Violation list \<Rightarrow> BySeverity \<times> IssueCount" where
  "tally vs =
     foldl tallyStep (\<lparr>n_critical = 0, n_serious = 0, n_moderate = 0, n_minor = 0\<rparr>, []) vs"

text \<open>
  \<open>Object.entries(issueCount).map(...).sort((a, b) => b.count - a.count)\<close>: the entries
  in insertion order (rule identifiers are names, not array indices), then a stable
  sort, descending by count.
\<close>

definition rankIssues :: "IssueCount \<Rightarrow> TopIssue list" where
  "rankIssues ic =
     sort_key (\<lambda>e. - int (count e))
       (map (\<lambda>(r, c, i). \<lparr>rule = r, count = c, issueImpact = i\<rparr>) ic)"

text \<open>Step 4, lines 184 to 211: the summary object.\<close>

definition compileSummary ::
  "string \<Rightarrow> string \<Rightarrow> string list \<Rightarrow> PageResult list \<Rightarrow> Violation list \<Rightarrow> AuditSummary"
where
  "compileSummary host_name isoDate crawlUrls allResults allViols =
     (let t = tally allViols
      in \<lparr>domain = host_name,
          scanDate = isoDate,
          pagesScanned = length crawlUrls,
          pagesWithErrors = length (filter (\<lambda>r. truthy (error r)) allResults),
          totalViolations = length allViols,
          bySeverity = fst t,
          topIssues = take 10 (rankIssues (snd t)),
          allViolations = allViols\<rparr>)"

text \<open>
  What a run reads from outside: the URL parser, the sitemap fetch, the browser
  (launch, navigation, analysis, close) and the clock.
\<close>

record 'b Env =
  parseUrl :: "string \<Rightarrow> ParsedUrl option"
  fetchSitemap :: "string \<Rightarrow> Fetched"
  launchBrowser :: "'b option"
  pageGoto :: "'b \<Rightarrow> string \<Rightarrow> Thrown option \<times> 'b"
  axeAnalyze :: "'b \<Rightarrow> (Thrown + AxeResults) \<times> 'b"
  browserClose :: "'b \<Rightarrow> bool"
  isoNow :: string

definition runFullAudit :: "'b Env \<Rightarrow> string \<Rightarrow> int \<Rightarrow> Fatal + AuditSummary" where
  "runFullAudit env baseUrl maxPages =
     (case getUrlsFromSitemap (parseUrl env) (fetchSitemap env) baseUrl maxPages of
        Inl e \<Rightarrow> Inl e
      | Inr crawlResult \<Rightarrow>
          (case launchBrowser env of
             None \<Rightarrow> Inl BrowserFailed
           | Some page \<Rightarrow>
               (case scanLoop (pageGoto env) (axeAnalyze env) page (urls crawlResult) [] [] of
                  (allResults, allViols, page') \<Rightarrow>
                    if \<not> browserClose env page' then Inl BrowserFailed
                    else
                      (case parseUrl env baseUrl of
                         None \<Rightarrow> Inl InvalidUrl
                       | Some u \<Rightarrow>
                           Inr (compileSummary (hostname u) (isoNow env) (urls crawlResult)
                                  allResults allViols)))))"

section \<open>Definitions used to state the properties\<close>

text \<open>
  The deny-list in the words of the specification: the extensions, without the dot that
  separates an extension from the rest of the URL.
\<close>

definition deniedExtensions :: "string list" where
  "deniedExtensions =
     [''pdf'', ''jpg'', ''jpeg'', ''png'', ''gif'', ''doc'', ''docx'', ''xls'', ''xlsx'',
      ''zip'', ''rar'']"

text \<open>
  A probe that finds nothing at its location: the fetch throws, or \<open>sites\<close> is missing
  or empty.
\<close>

definition probeFails :: "Fetched \<Rightarrow> bool" where
  "probeFails r = (r = FetchThrows \<or> r = FetchSites None \<or> r = FetchSites (Some []))"

text \<open>The sum of the four counters, and the sum of the counts in \<open>issueCount\<close>.\<close>

definition severityTotal :: "BySeverity \<Rightarrow> nat" where
  "severityTotal b = n_critical b + n_serious b + n_moderate b + n_minor b"

definition issueTotal :: "IssueCount \<Rightarrow> nat" where
  "issueTotal ic = sum_list (map (\<lambda>(k, c, i). c) ic)"

subsection \<open>An example run\<close>

text \<open>
  A site whose first sitemap is empty and whose index sitemap lists four URLs, one of
  them a PDF. The home page has two violations (the first on three nodes, the second
  with no impact given), the contact page one, and the navigation to the third page
  times out. The browser page state is the URL that is loaded.
\<close>

definition exampleParse :: "string \<Rightarrow> ParsedUrl option" where
  "exampleParse s =
     (if s = ''https://example.gov''
      then Some \<lparr>protocol = ''https:'', host = ''example.gov'', hostname = ''example.gov''\<rparr>
      else None)"

definition exampleSites :: "string list" where
  "exampleSites =
     [''https://example.gov/'', ''https://example.gov/report.PDF'',
      ''https://example.gov/contact'', ''https://example.gov/slow'']"

definition exampleFetch :: "string \<Rightarrow> Fetched" where
  "exampleFetch loc =
     (if loc = ''https://example.gov/sitemap.xml'' then FetchSites (Some [])
      else if loc = ''https://example.gov/sitemap_index.xml'' then FetchSites (Some exampleSites)
      else FetchThrows)"

definition imageAlt :: "nat \<Rightarrow> AxeResult" where
  "imageAlt n =
     \<lparr>ax_id = ''image-alt'', ax_impact = Some critical,
      ax_description = ''Ensure images have alternative text'',
      ax_help = ''Images must have alternative text'',
      ax_helpUrl = ''https://dequeuniversity.com/rules/axe/4.10/image-alt'',
      ax_tags = [''cat.text-alternatives'', ''wcag2a'', ''wcag111''],
      ax_nodes = replicate n ''<img src=\"logo.png\">''\<rparr>"

definition regionRule :: AxeResult where
  "regionRule =
     \<lparr>ax_id = ''region'', ax_impact = None,
      ax_description = ''Ensure all page content is contained by landmarks'',
      ax_help = ''All page content should be contained by landmarks'',
      ax_helpUrl = ''https://dequeuniversity.com/rules/axe/4.10/region'',
      ax_tags = [''cat.keyboard'', ''best-practice''],
      ax_nodes = [''<div>'']\<rparr>"

definition exampleAnalyze :: "string \<Rightarrow> (Thrown + AxeResults) \<times> string" where
  "exampleAnalyze page =
     (Inr (if page = ''https://example.gov/''
           then \<lparr>ax_violations = [imageAlt 3, regionRule], ax_passes = [], ax_incomplete = []\<rparr>
           else \<lparr>ax_violations = [imageAlt 1], ax_passes = [], ax_incomplete = []\<rparr>), page)"

definition exampleGoto :: "string \<Rightarrow> string \<Rightarrow> Thrown option \<times> string" where
  "exampleGoto page u =
     (if u = ''https://example.gov/slow''
      then (Some (ErrorObject ''Navigation timeout of 30000 ms exceeded''), page)
      else (None, u))"

definition exampleEnv :: "string Env" where
  "exampleEnv =
     \<lparr>parseUrl = exampleParse, fetchSitemap = exampleFetch, launchBrowser = Some ''about:blank'',
      pageGoto = exampleGoto, axeAnalyze = exampleAnalyze, browserClose = (\<lambda>page. True),
      isoNow = ''2025-01-01T00:00:00.000Z''\<rparr>"

text \<open>What the example run computes: the records, the outcomes and the summary.\<close>

definition exampleViolations :: "Violation list" where
  "exampleViolations =
     [\<lparr>vid = ''image-alt'', impact = critical,
       description = ''Ensure images have alternative text'',
       vhelp = ''Images must have alternative text'',
       helpUrl = ''https://dequeuniversity.com/rules/axe/4.10/image-alt'',
       wcagTags = ''wcag2a, wcag111'', nodeCount = 3,
       pageUrl = ''https://example.gov/''\<rparr>,
      \<lparr>vid = ''region'', impact = minor,
       description = ''Ensure all page content is contained by landmarks'',
       vhelp = ''All page content should be contained by landmarks'',
       helpUrl = ''https://dequeuniversity.com/rules/axe/4.10/region'',
       wcagTags = [], nodeCount = 1,
       pageUrl = ''https://example.gov/''\<rparr>,
      \<lparr>vid = ''image-alt'', impact = critical,
       description = ''Ensure images have alternative text'',
       vhelp = ''Images must have alternative text'',
       helpUrl = ''https://dequeuniversity.com/rules/axe/4.10/image-alt'',
       wcagTags = ''wcag2a, wcag111'', nodeCount = 1,
       pageUrl = ''https://example.gov/contact''\<rparr>]"

definition exampleOutcomes :: "PageResult list" where
  "exampleOutcomes =
     [\<lparr>url = ''https://example.gov/'', violations = take 2 exampleViolations,
       passes = 0, incomplete = 0, error = None\<rparr>,
      \<lparr>url = ''https://example.gov/contact'', violations = drop 2 exampleViolations,
       passes = 0, incomplete = 0, error = None\<rparr>,
      \<lparr>url = ''https://example.gov/slow'', violations = [], passes = 0, incomplete = 0,
       error = Some ''Navigation timeout of 30000 ms exceeded''\<rparr>]"

definition exampleSummary :: AuditSummary where
  "exampleSummary =
     \<lparr>domain = ''example.gov'', scanDate = ''2025-01-01T00:00:00.000Z'',
      pagesScanned = 3, pagesWithErrors = 1, totalViolations = 3,
      bySeverity = \<lparr>n_critical = 2, n_serious = 0, n_moderate = 0, n_minor = 1\<rparr>,
      topIssues =
        [\<lparr>rule = ''image-alt'', count = 2, issueImpact = critical\<rparr>,
         \<lparr>rule = ''region'', count = 1, issueImpact = minor\<rparr>],
      allViolations = exampleViolations\<rparr>"

text \<open>A site where no sitemap location answers with a URL.\<close>

definition failingFetch :: "string \<Rightarrow> Fetched" where
  "failingFetch loc =
     (if loc = ''https://example.gov/sitemap.xml'' then FetchSites (Some [])
      else if loc = ''https://example.gov/sitemap_index.xml'' then FetchSites None
      else FetchThrows)"

section \<open>Evaluating the example run\<close>

lemma example_parse:
  "exampleParse ''https://example.gov''
     = Some \<lparr>protocol = ''https:'', host = ''example.gov'', hostname = ''example.gov''\<rparr>"
  by (simp add: exampleParse_def)

lemma example_locations:
  "sitemapLocations ''https://example.gov''
     = [''https://example.gov/sitemap.xml'', ''https://example.gov/sitemap_index.xml'',
        ''https://example.gov/sitemap/sitemap.xml'', ''https://example.gov/wp-sitemap.xml'']"
  by (simp add: sitemapLocations_def)

lemma example_probe:
  "probeSitemaps exampleFetch (sitemapLocations ''https://example.gov'') = exampleSites"
  unfolding example_locations by (simp add: exampleFetch_def exampleSites_def)

lemma example_html:
  "filter isHtmlUrl exampleSites
     = [''https://example.gov/'', ''https://example.gov/contact'', ''https://example.gov/slow'']"
  by (simp add: exampleSites_def isHtmlUrl_def toLowerCase_def toLowerChar_def endsWith_def)

lemma example_crawl:
  "getUrlsFromSitemap exampleParse exampleFetch ''https://example.gov'' 10
     = Inr \<lparr>urls = [''https://example.gov/'', ''https://example.gov/contact'',
                     ''https://example.gov/slow''],
             source = sitemap, totalFound = 4, filtered = 3\<rparr>"
proof -
  have p: "exampleParse ''https://example.gov''
      = Some \<lparr>protocol = ''https:'', host = ''example.gov'', hostname = ''example.gov''\<rparr>"
    by (simp add: exampleParse_def)
  have o: "''https:'' @ ''//'' @ ''example.gov'' = ''https://example.gov''" by simp
  show ?thesis
    unfolding getUrlsFromSitemap_def p option.case Let_def ParsedUrl.simps o example_probe
      example_html
    by (simp add: exampleSites_def sliceTo_def)
qed

lemma example_page1:
  "scanPage exampleGoto exampleAnalyze page ''https://example.gov/''
     = (exampleOutcomes ! 0, ''https://example.gov/'')"
  by (simp add: scanPage_def exampleGoto_def exampleAnalyze_def exampleOutcomes_def
      exampleViolations_def toViolation_def imageAlt_def regionRule_def startsWith_def)

lemma example_page2:
  "scanPage exampleGoto exampleAnalyze page ''https://example.gov/contact''
     = (exampleOutcomes ! 1, ''https://example.gov/contact'')"
  by (simp add: scanPage_def exampleGoto_def exampleAnalyze_def exampleOutcomes_def
      exampleViolations_def toViolation_def imageAlt_def regionRule_def startsWith_def)

lemma example_page3:
  "scanPage exampleGoto exampleAnalyze page ''https://example.gov/slow''
     = (exampleOutcomes ! 2, page)"
  by (simp add: scanPage_def exampleGoto_def failedPage_def exampleOutcomes_def)

lemma example_scan:
  "scanLoop exampleGoto exampleAnalyze ''about:blank''
     [''https://example.gov/'', ''https://example.gov/contact'', ''https://example.gov/slow'']
     [] []
   = (exampleOutcomes, exampleViolations, ''https://example.gov/contact'')"
  unfolding scanLoop.simps example_page1 example_page2 example_page3 prod.case
  by (simp add: exampleOutcomes_def exampleViolations_def)

lemma example_tally:
  "tally exampleViolations
     = (\<lparr>n_critical = 2, n_serious = 0, n_moderate = 0, n_minor = 1\<rparr>,
        [(''image-alt'', 2, critical), (''region'', 1, minor)])"
  by (simp add: tally_def tallyStep_def countIssue_def exampleViolations_def
      objectPrototypeKeys_def)

lemma example_summary:
  "compileSummary ''example.gov'' ''2025-01-01T00:00:00.000Z''
     [''https://example.gov/'', ''https://example.gov/contact'', ''https://example.gov/slow'']
     exampleOutcomes exampleViolations = exampleSummary"
  unfolding compileSummary_def example_tally Let_def
  by (simp add: rankIssues_def exampleSummary_def exampleOutcomes_def exampleViolations_def)

lemma example_run: "runFullAudit exampleEnv ''https://example.gov'' 10 = Inr exampleSummary"
proof -
  have p: "exampleParse ''https://example.gov''
      = Some \<lparr>protocol = ''https:'', host = ''example.gov'', hostname = ''example.gov''\<rparr>"
    by (simp add: exampleParse_def)
  show ?thesis
    unfolding runFullAudit_def exampleEnv_def Env.simps example_crawl sum.case
      option.case CrawlResult.simps example_scan prod.case p ParsedUrl.simps example_summary
    by simp
qed

section \<open>Lemmas about the crawler\<close>

lemma probeSitemaps_all_fail:
  "\<forall>loc \<in> set locs. probeFails (fetch loc) \<Longrightarrow> probeSitemaps fetch locs = []"
  by (induction locs) (auto simp: probeFails_def)

lemma sliceTo_nonneg: "0 \<le> n \<Longrightarrow> sliceTo xs n = take (nat n) xs"
  by (simp add: sliceTo_def)

lemma if_False_else: "(if a then False else b) = (\<not> a \<and> b)"
  by simp

lemma isHtmlUrl_deny:
  "isHtmlUrl x = (\<forall>ext \<in> set deniedExtensions. \<not> endsWith (toLowerCase x) (''.'' @ ext))"
  unfolding isHtmlUrl_def deniedExtensions_def Let_def if_False_else
  by (simp only: list.set ball_simps de_Morgan_disj append.simps) blast

lemma getUrls_sitemap_branch:
  assumes "parse baseUrl = Some u"
    and "probeSitemaps fetch (sitemapLocations (protocol u @ ''//'' @ host u)) = allUrls"
    and "allUrls \<noteq> []"
    and "0 \<le> maxPages"
    and "getUrlsFromSitemap parse fetch baseUrl maxPages = Inr r"
  shows "urls r = take (nat maxPages) (filter isHtmlUrl allUrls)"
proof -
  have "getUrlsFromSitemap parse fetch baseUrl maxPages
      = Inr \<lparr>urls = sliceTo (filter isHtmlUrl allUrls) maxPages, source = sitemap,
              totalFound = length allUrls,
              filtered = length (sliceTo (filter isHtmlUrl allUrls) maxPages)\<rparr>"
    using assms(1,2,3) by (simp add: getUrlsFromSitemap_def Let_def)
  with assms(5) have "urls r = sliceTo (filter isHtmlUrl allUrls) maxPages"
    by auto
  with assms(4) show ?thesis by (simp add: sliceTo_nonneg)
qed

section \<open>Lemmas about the scanner\<close>

lemma url_scanPage: "url (fst (scanPage goto analyze page u)) = u"
  by (simp add: scanPage_def failedPage_def split: prod.split option.split sum.split)

lemma scanLoop_results:
  "scanLoop goto analyze page us R V = (R', V', page')
     \<Longrightarrow> length R' = length R + length us \<and> map url R' = map url R @ us"
proof (induction us arbitrary: page R V)
  case Nil
  then show ?case by simp
next
  case (Cons u us)
  obtain result p1 where sp: "scanPage goto analyze page u = (result, p1)"
    by (cases "scanPage goto analyze page u")
  have u: "url result = u" using url_scanPage [of goto analyze page u] sp by simp
  let ?V = "if truthy (error result) then V
             else if length (violations result) > 0 then V @ violations result else V"
  have "scanLoop goto analyze p1 us (R @ [result]) ?V = (R', V', page')"
    using Cons.prems sp by simp
  from Cons.IH [OF this] u show ?case by simp
qed

lemma scanPage_goto_throws:
  "goto page u = (Some t, p1) \<Longrightarrow> scanPage goto analyze page u = (failedPage u t, p1)"
  by (simp add: scanPage_def)

lemma scanPage_analyze_throws:
  "goto page u = (None, p1) \<Longrightarrow> analyze p1 = (Inl t, p2)
     \<Longrightarrow> scanPage goto analyze page u = (failedPage u t, p2)"
  by (simp add: scanPage_def)

lemma scanPage_success:
  "goto page u = (None, p1) \<Longrightarrow> analyze p1 = (Inr results, p2)
     \<Longrightarrow> scanPage goto analyze page u =
         (\<lparr>url = u, violations = map (toViolation u) (ax_violations results),
           passes = length (ax_passes results), incomplete = length (ax_incomplete results),
           error = None\<rparr>, p2)"
  by (simp add: scanPage_def)

lemma scanPage_error_no_violations:
  "error (fst (scanPage goto analyze page u)) \<noteq> None
     \<Longrightarrow> violations (fst (scanPage goto analyze page u)) = []"
  by (simp add: scanPage_def failedPage_def split: prod.splits option.splits sum.splits)

lemma scanLoop_outcomes:
  "scanLoop goto analyze page us R V = (R', V', page')
     \<Longrightarrow> \<exists>Rs. R' = R @ Rs
           \<and> list_all2 (\<lambda>r u. \<exists>p. r = fst (scanPage goto analyze p u)) Rs us"
proof (induction us arbitrary: page R V)
  case Nil
  then show ?case by simp
next
  case (Cons u us)
  obtain result p1 where sp: "scanPage goto analyze page u = (result, p1)"
    by (cases "scanPage goto analyze page u")
  let ?V = "if truthy (error result) then V
             else if length (violations result) > 0 then V @ violations result else V"
  have "scanLoop goto analyze p1 us (R @ [result]) ?V = (R', V', page')"
    using Cons.prems sp by simp
  from Cons.IH [OF this] obtain Rs where
    Rs: "R' = (R @ [result]) @ Rs"
        "list_all2 (\<lambda>r u. \<exists>p. r = fst (scanPage goto analyze p u)) Rs us"
    by blast
  have "result = fst (scanPage goto analyze page u)" using sp by simp
  then have "list_all2 (\<lambda>r u. \<exists>p. r = fst (scanPage goto analyze p u)) (result # Rs) (u # us)"
    using Rs(2) by auto
  with Rs(1) show ?case by auto
qed

section \<open>Lemmas about the tallies\<close>

lemma severityTotal_bump: "severityTotal (bumpSeverity b s) = severityTotal b + 1"
  by (cases s) (simp_all add: severityTotal_def)

lemma increment_absent:
  "k \<notin> fst ` set ic
     \<Longrightarrow> map (\<lambda>(k', c, i). if k' = k then (k', c + 1, i) else (k', c, i)) ic = ic"
  by (induction ic) auto

lemma issueTotal_increment:
  "distinct (map fst ic) \<Longrightarrow> k \<in> fst ` set ic
     \<Longrightarrow> issueTotal (map (\<lambda>(k', c, i). if k' = k then (k', c + 1, i) else (k', c, i)) ic)
         = issueTotal ic + 1"
proof (induction ic)
  case Nil
  then show ?case by simp
next
  case (Cons e ic)
  obtain k' c i where e: "e = (k', c, i)" by (cases e)
  show ?case
  proof (cases "k' = k")
    case True
    with Cons.prems e have "k \<notin> fst ` set ic" by auto
    from increment_absent [OF this] True e show ?thesis
      by (simp add: issueTotal_def)
  next
    case False
    with Cons.prems e have "k \<in> fst ` set ic" "distinct (map fst ic)" by auto
    from Cons.IH [OF this(2) this(1)] False e show ?thesis
      by (simp add: issueTotal_def)
  qed
qed

lemma keys_increment:
  "map fst (map (\<lambda>(k', c, i). if k' = k then (k', c + 1, i) else (k', c, i)) ic) = map fst ic"
  by (induction ic) auto

lemma countIssue_distinct:
  assumes "distinct (map fst ic)"
  shows "distinct (map fst (countIssue ic v))"
proof (cases "map_of ic (vid v)")
  case None
  then have "vid v \<notin> set (map fst ic)" by (simp add: map_of_eq_None_iff)
  with None assms show ?thesis by (simp add: countIssue_def)
next
  case (Some a)
  with assms show ?thesis by (simp add: countIssue_def keys_increment del: map_map)
qed

lemma countIssue_total:
  assumes "distinct (map fst ic)" and "vid v \<notin> set objectPrototypeKeys"
  shows "issueTotal (countIssue ic v) = issueTotal ic + 1"
proof (cases "map_of ic (vid v)")
  case None
  with assms(2) show ?thesis by (simp add: countIssue_def issueTotal_def)
next
  case (Some a)
  then have "vid v \<in> fst ` set ic" by (metis map_of_eq_None_iff option.distinct(1))
  from issueTotal_increment [OF assms(1) this] Some show ?thesis
    by (simp add: countIssue_def)
qed

lemma tally_totals:
  "distinct (map fst (snd acc))
     \<Longrightarrow> severityTotal (fst (foldl tallyStep acc vs)) = severityTotal (fst acc) + length vs
       \<and> ((\<forall>v \<in> set vs. vid v \<notin> set objectPrototypeKeys)
            \<longrightarrow> issueTotal (snd (foldl tallyStep acc vs)) = issueTotal (snd acc) + length vs)"
proof (induction vs arbitrary: acc)
  case Nil
  then show ?case by simp
next
  case (Cons v vs)
  have d: "distinct (map fst (snd (tallyStep acc v)))"
    using Cons.prems by (simp add: tallyStep_def countIssue_distinct)
  have s: "severityTotal (fst (tallyStep acc v)) = severityTotal (fst acc) + 1"
    by (simp add: tallyStep_def severityTotal_bump)
  have i: "vid v \<notin> set objectPrototypeKeys
      \<Longrightarrow> issueTotal (snd (tallyStep acc v)) = issueTotal (snd acc) + 1"
    using Cons.prems by (simp add: tallyStep_def countIssue_total)
  from Cons.IH [OF d] s i show ?case by simp
qed

lemma sum_insort_key:
  "sum_list (map g (insort_key f x xs)) = (g x :: nat) + sum_list (map g xs)"
  by (induction xs) simp_all

lemma sum_sort_key: "sum_list (map g (sort_key f xs)) = sum_list (map (g :: 'a \<Rightarrow> nat) xs)"
  by (induction xs) (simp_all add: sum_insort_key)

lemma rankIssues_total: "sum_list (map count (rankIssues ic)) = issueTotal ic"
proof -
  have "map count (map (\<lambda>(r, c, i). \<lparr>rule = r, count = c, issueImpact = i\<rparr>) ic)
      = map (\<lambda>(k, c, i). c) ic"
    by (induction ic) auto
  then show ?thesis
    by (simp add: rankIssues_def issueTotal_def sum_sort_key del: map_map)
qed

lemma bumpSeverity_counts:
  "n_critical (bumpSeverity b s) = n_critical b + (if s = critical then 1 else 0)"
  "n_serious (bumpSeverity b s) = n_serious b + (if s = serious then 1 else 0)"
  "n_moderate (bumpSeverity b s) = n_moderate b + (if s = moderate then 1 else 0)"
  "n_minor (bumpSeverity b s) = n_minor b + (if s = minor then 1 else 0)"
  by (cases s; simp)+

lemma foldl_tally_counts_records:
  "n_critical (fst (foldl tallyStep acc vs))
     = n_critical (fst acc) + length (filter (\<lambda>v. impact v = critical) vs)
   \<and> n_serious (fst (foldl tallyStep acc vs))
     = n_serious (fst acc) + length (filter (\<lambda>v. impact v = serious) vs)
   \<and> n_moderate (fst (foldl tallyStep acc vs))
     = n_moderate (fst acc) + length (filter (\<lambda>v. impact v = moderate) vs)
   \<and> n_minor (fst (foldl tallyStep acc vs))
     = n_minor (fst acc) + length (filter (\<lambda>v. impact v = minor) vs)"
proof (induction vs arbitrary: acc)
  case Nil
  then show ?case by simp
next
  case (Cons v vs)
  show ?case
    using Cons.IH [of "tallyStep acc v"]
    by (simp add: tallyStep_def bumpSeverity_counts)
qed

lemma tally_counts_records:
  "n_critical (fst (tally vs)) = length (filter (\<lambda>v. impact v = critical) vs)"
  "n_serious (fst (tally vs)) = length (filter (\<lambda>v. impact v = serious) vs)"
  "n_moderate (fst (tally vs)) = length (filter (\<lambda>v. impact v = moderate) vs)"
  "n_minor (fst (tally vs)) = length (filter (\<lambda>v. impact v = minor) vs)"
  using foldl_tally_counts_records
    [of "(\<lparr>n_critical = 0, n_serious = 0, n_moderate = 0, n_minor = 0\<rparr>, [])" vs]
  by (simp_all add: tally_def)

lemma runFullAudit_Inr:
  assumes "runFullAudit env baseUrl maxPages = Inr s"
  shows "\<exists>crawlResult page allResults allViols page' u.
           getUrlsFromSitemap (parseUrl env) (fetchSitemap env) baseUrl maxPages = Inr crawlResult
         \<and> launchBrowser env = Some page
         \<and> scanLoop (pageGoto env) (axeAnalyze env) page (urls crawlResult) [] []
             = (allResults, allViols, page')
         \<and> parseUrl env baseUrl = Some u
         \<and> s = compileSummary (hostname u) (isoNow env) (urls crawlResult) allResults allViols"
  using assms
  by (auto simp: runFullAudit_def split: sum.splits option.splits prod.splits if_splits)

section \<open>Lead grading\<close>

text \<open>
  Claim C1. For every summary, the grade that \<open>printSummary\<close> selects is the one the
  four threshold rules give, evaluated in precedence order with the first match winning:
  A if critical + serious is at least 10 or the total is at least 25; otherwise B if
  critical + serious is at least 5 or the total is at least 15; otherwise C if the total
  is at least 1; otherwise Skip, which is selected only when the total is 0. A tally of
  2 critical, 12 serious, 1 moderate and 0 minor with total 15 gives A.
\<close>

theorem lead_grade_threshold_rules:
  "printSummary s =
     specLeadGrade (n_critical (bySeverity s) + n_serious (bySeverity s)) (totalViolations s)
   \<and> (printSummary s = SKIP \<longrightarrow> totalViolations s = 0)
   \<and> (bySeverity s = \<lparr>n_critical = 2, n_serious = 12, n_moderate = 1, n_minor = 0\<rparr>
        \<and> totalViolations s = 15 \<longrightarrow> printSummary s = A_LEAD)"
  by (simp add: printSummary_def specLeadGrade_def Let_def)

theorem lead_grade_threshold_rules_witness:
  "printSummary \<lparr>domain = ''example.gov'', scanDate = ''2025-01-01T00:00:00.000Z'',
      pagesScanned = 3, pagesWithErrors = 0, totalViolations = 15,
      bySeverity = \<lparr>n_critical = 2, n_serious = 12, n_moderate = 1, n_minor = 0\<rparr>,
      topIssues = [], allViolations = []\<rparr> = A_LEAD
   \<and> specLeadGrade 14 15 = A_LEAD"
  using lead_grade_threshold_rules [of "\<lparr>domain = ''example.gov'', scanDate = ''2025-01-01T00:00:00.000Z'',
      pagesScanned = 3, pagesWithErrors = 0, totalViolations = 15,
      bySeverity = \<lparr>n_critical = 2, n_serious = 12, n_moderate = 1, n_minor = 0\<rparr>,
      topIssues = [], allViolations = []\<rparr>"]
  by (simp add: specLeadGrade_def)

text \<open>
  Claim C8. Grading is monotone in the critical+serious count. When the second summary
  has at least the critical+serious count of the first, and a total that is the same
  (held fixed) or larger (recomputed from the larger tally), its grade is at least the
  grade of the first in the order Skip, C, B, A.
\<close>

theorem lead_grade_monotone:
  assumes "n_critical (bySeverity s) + n_serious (bySeverity s)
             \<le> n_critical (bySeverity s') + n_serious (bySeverity s')"
    and "totalViolations s \<le> totalViolations s'"
  shows "gradeLevel (printSummary s) \<le> gradeLevel (printSummary s')"
  using assms by (simp add: printSummary_def Let_def)

theorem lead_grade_monotone_witness:
  "printSummary exampleSummary = C_LEAD
   \<and> printSummary (exampleSummary\<lparr>bySeverity :=
         \<lparr>n_critical = 2, n_serious = 4, n_moderate = 0, n_minor = 1\<rparr>\<rparr>) = B_LEAD
   \<and> gradeLevel (printSummary exampleSummary)
       \<le> gradeLevel (printSummary (exampleSummary\<lparr>bySeverity :=
             \<lparr>n_critical = 2, n_serious = 4, n_moderate = 0, n_minor = 1\<rparr>\<rparr>))"
proof -
  have h1: "n_critical (bySeverity exampleSummary) + n_serious (bySeverity exampleSummary)
      \<le> n_critical (bySeverity (exampleSummary\<lparr>bySeverity :=
             \<lparr>n_critical = 2, n_serious = 4, n_moderate = 0, n_minor = 1\<rparr>\<rparr>))
        + n_serious (bySeverity (exampleSummary\<lparr>bySeverity :=
             \<lparr>n_critical = 2, n_serious = 4, n_moderate = 0, n_minor = 1\<rparr>\<rparr>))"
    by (simp add: exampleSummary_def)
  have h2: "totalViolations exampleSummary
      \<le> totalViolations (exampleSummary\<lparr>bySeverity :=
             \<lparr>n_critical = 2, n_serious = 4, n_moderate = 0, n_minor = 1\<rparr>\<rparr>)"
    by simp
  from lead_grade_monotone [OF h1 h2] show ?thesis
    by (simp add: printSummary_def exampleSummary_def)
qed

text \<open>
  Claim C9. The two implementations of the threshold rule, the one in \<open>printSummary\<close>
  and the one in \<open>exportSummaryText\<close>, select the same grade for every summary.
\<close>

theorem summary_text_grade_agrees: "exportSummaryText s = printSummary s"
  by (simp add: printSummary_def exportSummaryText_def Let_def)

section \<open>Sitemap resolver and URL filter\<close>

text \<open>
  Claim C5. For a root URL that parses, the resolver always returns a result: no probe
  failure is fatal. It probes four locations, and when each of them throws or gives a
  missing or empty URL list, the result is exactly the root URL alone, tagged
  \<open>fallback\<close>.
\<close>

theorem sitemap_fallback:
  assumes "parse baseUrl = Some u"
  shows "(\<exists>r. getUrlsFromSitemap parse fetch baseUrl maxPages = Inr r)
    \<and> length (sitemapLocations (protocol u @ ''//'' @ host u)) = 4
    \<and> ((\<forall>loc \<in> set (sitemapLocations (protocol u @ ''//'' @ host u)). probeFails (fetch loc))
        \<longrightarrow> getUrlsFromSitemap parse fetch baseUrl maxPages
              = Inr \<lparr>urls = [baseUrl], source = fallback, totalFound = 1, filtered = 1\<rparr>)"
proof (intro conjI impI)
  show "\<exists>r. getUrlsFromSitemap parse fetch baseUrl maxPages = Inr r"
    using assms by (simp add: getUrlsFromSitemap_def Let_def)
  show "length (sitemapLocations (protocol u @ ''//'' @ host u)) = 4"
    by (simp add: sitemapLocations_def)
next
  assume "\<forall>loc \<in> set (sitemapLocations (protocol u @ ''//'' @ host u)). probeFails (fetch loc)"
  then have "probeSitemaps fetch (sitemapLocations (protocol u @ ''//'' @ host u)) = []"
    by (rule probeSitemaps_all_fail)
  then show "getUrlsFromSitemap parse fetch baseUrl maxPages
              = Inr \<lparr>urls = [baseUrl], source = fallback, totalFound = 1, filtered = 1\<rparr>"
    using assms by (simp add: getUrlsFromSitemap_def Let_def)
qed

theorem sitemap_fallback_witness:
  "getUrlsFromSitemap exampleParse failingFetch ''https://example.gov'' 10
     = Inr \<lparr>urls = [''https://example.gov''], source = fallback, totalFound = 1, filtered = 1\<rparr>"
proof -
  have "\<forall>loc \<in> set (sitemapLocations ''https://example.gov''). probeFails (failingFetch loc)"
    unfolding example_locations by (simp add: failingFetch_def probeFails_def)
  then show ?thesis
    using example_parse
      sitemap_fallback [of exampleParse "''https://example.gov''"
        "\<lparr>protocol = ''https:'', host = ''example.gov'', hostname = ''example.gov''\<rparr>"
        failingFetch 10]
    by simp
qed

text \<open>
  Claim C7. When a probe found the non-empty list \<open>allUrls\<close> and the page cap is
  positive, the URLs returned are a subsequence of \<open>allUrls\<close> (same relative order,
  nothing merged), none of them ends, once lowercased, in a dot followed by a deny-listed
  extension, there are at most \<open>maxPages\<close> of them, and they are the first \<open>maxPages\<close>
  survivors of the filter.
\<close>

theorem url_filter_order_and_cap:
  assumes "parse baseUrl = Some u"
    and "probeSitemaps fetch (sitemapLocations (protocol u @ ''//'' @ host u)) = allUrls"
    and "allUrls \<noteq> []"
    and "0 < maxPages"
    and "getUrlsFromSitemap parse fetch baseUrl maxPages = Inr r"
  shows "subseq (urls r) allUrls
    \<and> (\<forall>x \<in> set (urls r). \<forall>ext \<in> set deniedExtensions.
          \<not> endsWith (toLowerCase x) (''.'' @ ext))
    \<and> length (urls r) \<le> nat maxPages
    \<and> urls r = take (nat maxPages)
         (filter (\<lambda>x. \<forall>ext \<in> set deniedExtensions. \<not> endsWith (toLowerCase x) (''.'' @ ext))
            allUrls)"
proof -
  have r: "urls r = take (nat maxPages) (filter isHtmlUrl allUrls)"
    using assms by (intro getUrls_sitemap_branch [of parse baseUrl u fetch]) simp_all
  have f: "isHtmlUrl = (\<lambda>x. \<forall>ext \<in> set deniedExtensions. \<not> endsWith (toLowerCase x) (''.'' @ ext))"
    by (rule ext) (rule isHtmlUrl_deny)
  have "subseq (take (nat maxPages) (filter isHtmlUrl allUrls)) (filter isHtmlUrl allUrls)"
    by (rule prefix_imp_subseq) (rule take_is_prefix)
  moreover have "subseq (filter isHtmlUrl allUrls) allUrls"
    by (rule subseq_filter_left)
  ultimately have s1: "subseq (urls r) allUrls"
    unfolding r by (rule subseq_order.order_trans)
  have "\<forall>x \<in> set (urls r). isHtmlUrl x"
    unfolding r by (auto dest: in_set_takeD)
  then have s2: "\<forall>x \<in> set (urls r). \<forall>ext \<in> set deniedExtensions.
          \<not> endsWith (toLowerCase x) (''.'' @ ext)"
    unfolding f .
  have s3: "length (urls r) \<le> nat maxPages"
    unfolding r by simp
  have s4: "urls r = take (nat maxPages)
         (filter (\<lambda>x. \<forall>ext \<in> set deniedExtensions. \<not> endsWith (toLowerCase x) (''.'' @ ext))
            allUrls)"
    using r unfolding f .
  from s1 s2 s3 s4 show ?thesis by (intro conjI)
qed

theorem url_filter_order_and_cap_witness:
  "subseq [''https://example.gov/'', ''https://example.gov/contact'', ''https://example.gov/slow'']
     exampleSites
   \<and> length [''https://example.gov/'', ''https://example.gov/contact'',
               ''https://example.gov/slow''] \<le> nat 10
   \<and> \<not> endsWith (toLowerCase ''https://example.gov/contact'') (''.'' @ ''pdf'')
   \<and> \<not> isHtmlUrl ''https://example.gov/report.PDF''"
proof -
  have p: "probeSitemaps exampleFetch
      (sitemapLocations (protocol \<lparr>protocol = ''https:'', host = ''example.gov'',
          hostname = ''example.gov''\<rparr> @ ''//'' @ host \<lparr>protocol = ''https:'',
          host = ''example.gov'', hostname = ''example.gov''\<rparr>)) = exampleSites"
    using example_probe by simp
  have n: "exampleSites \<noteq> []" by (simp add: exampleSites_def)
  have c: "(0::int) < 10" by simp
  have d: "\<not> isHtmlUrl ''https://example.gov/report.PDF''"
    by (simp add: isHtmlUrl_def toLowerCase_def toLowerChar_def endsWith_def)
  note w = url_filter_order_and_cap [OF example_parse p n c example_crawl]
  have 1: "subseq [''https://example.gov/'', ''https://example.gov/contact'',
      ''https://example.gov/slow''] exampleSites"
    using w [THEN conjunct1] by (simp only: CrawlResult.select_convs)
  have "\<forall>x \<in> set [''https://example.gov/'', ''https://example.gov/contact'',
                   ''https://example.gov/slow''].
        \<forall>ext \<in> set deniedExtensions. \<not> endsWith (toLowerCase x) (''.'' @ ext)"
    using w [THEN conjunct2, THEN conjunct1] by (simp only: CrawlResult.select_convs)
  moreover have "''https://example.gov/contact''
      \<in> set [''https://example.gov/'', ''https://example.gov/contact'',
             ''https://example.gov/slow'']"
    by simp
  moreover have "''pdf'' \<in> set deniedExtensions"
    by (simp add: deniedExtensions_def)
  ultimately have 2: "\<not> endsWith (toLowerCase ''https://example.gov/contact'') (''.'' @ ''pdf'')"
    by blast
  have 3: "length [''https://example.gov/'', ''https://example.gov/contact'',
               ''https://example.gov/slow''] \<le> nat 10"
    using w [THEN conjunct2, THEN conjunct2, THEN conjunct1]
    by (simp only: CrawlResult.select_convs)
  from 1 2 3 d show ?thesis by (intro conjI)
qed

section \<open>Page scan outcomes\<close>

text \<open>
  Claim C6. The scan loop gives one outcome per input URL, in the order of the URLs,
  each being the outcome of \<open>scanPage\<close> on that URL; an outcome with an error has no
  violations; and when the navigation or the analysis throws, \<open>scanPage\<close> gives a
  failure outcome with an empty violation list and the message of the error
  (\<open>'Unknown error'\<close> when the thrown value is not an \<open>Error\<close>).
\<close>

theorem one_outcome_per_url:
  "length (fst (scanLoop goto analyze page us [] [])) = length us
   \<and> map url (fst (scanLoop goto analyze page us [] [])) = us
   \<and> list_all2 (\<lambda>r u. \<exists>p. r = fst (scanPage goto analyze p u))
        (fst (scanLoop goto analyze page us [] [])) us
   \<and> (\<forall>r \<in> set (fst (scanLoop goto analyze page us [] [])).
         error r \<noteq> None \<longrightarrow> violations r = [])
   \<and> (goto p u = (Some t, p1) \<or> (goto p u = (None, p1) \<and> analyze p1 = (Inl t, p2))
        \<longrightarrow> fst (scanPage goto analyze p u)
            = \<lparr>url = u, violations = [], passes = 0, incomplete = 0,
                error = Some (case t of ErrorObject message \<Rightarrow> message
                                      | OtherValue \<Rightarrow> ''Unknown error'')\<rparr>)"
proof -
  obtain R' V' page' where sl: "scanLoop goto analyze page us [] [] = (R', V', page')"
    by (cases "scanLoop goto analyze page us [] []")
  from scanLoop_results [OF sl] have a: "length R' = length us" "map url R' = us"
    by simp_all
  from scanLoop_outcomes [OF sl]
  have b: "list_all2 (\<lambda>r u. \<exists>p. r = fst (scanPage goto analyze p u)) R' us"
    by simp
  have c: "\<forall>r \<in> set R'. error r \<noteq> None \<longrightarrow> violations r = []"
  proof
    fix r assume "r \<in> set R'"
    then obtain i where i: "i < length R'" "R' ! i = r"
      by (auto simp: in_set_conv_nth)
    with b obtain q where "r = fst (scanPage goto analyze q (us ! i))"
      by (auto simp: list_all2_conv_all_nth)
    then show "error r \<noteq> None \<longrightarrow> violations r = []"
      using scanPage_error_no_violations [of goto analyze q "us ! i"] by simp
  qed
  have d: "goto p u = (Some t, p1) \<or> (goto p u = (None, p1) \<and> analyze p1 = (Inl t, p2))
        \<longrightarrow> fst (scanPage goto analyze p u)
            = \<lparr>url = u, violations = [], passes = 0, incomplete = 0,
                error = Some (case t of ErrorObject message \<Rightarrow> message
                                      | OtherValue \<Rightarrow> ''Unknown error'')\<rparr>"
    using scanPage_goto_throws [of goto p u t p1 analyze]
      scanPage_analyze_throws [of goto p u p1 analyze t p2]
    by (auto simp: failedPage_def)
  from a b c d show ?thesis unfolding sl by simp
qed

theorem one_outcome_per_url_witness:
  "length exampleOutcomes = 3
   \<and> map url exampleOutcomes
       = [''https://example.gov/'', ''https://example.gov/contact'', ''https://example.gov/slow'']
   \<and> fst (scanPage exampleGoto exampleAnalyze ''https://example.gov/contact''
            ''https://example.gov/slow'')
       = \<lparr>url = ''https://example.gov/slow'', violations = [], passes = 0, incomplete = 0,
           error = Some ''Navigation timeout of 30000 ms exceeded''\<rparr>"
proof -
  have g: "exampleGoto ''https://example.gov/contact'' ''https://example.gov/slow''
      = (Some (ErrorObject ''Navigation timeout of 30000 ms exceeded''),
         ''https://example.gov/contact'')"
    by (simp add: exampleGoto_def)
  from one_outcome_per_url [of exampleGoto exampleAnalyze "''about:blank''"
      "[''https://example.gov/'', ''https://example.gov/contact'', ''https://example.gov/slow'']"
      "''https://example.gov/contact''" "''https://example.gov/slow''"
      "ErrorObject ''Navigation timeout of 30000 ms exceeded''" "''https://example.gov/contact''"
      "''https://example.gov/contact''"] g
  show ?thesis unfolding example_scan by simp
qed

text \<open>
  Claim C10. When the page loads and the rule engine returns results, \<open>scanPage\<close>
  records one violation per entry, in order, with the entry's rule identifier; an entry
  whose impact is missing or null is recorded with severity \<open>minor\<close>, any other entry
  keeps its impact. The severity of every violation in an outcome is one of critical,
  serious, moderate and minor.
\<close>

theorem missing_impact_is_minor:
  "(goto page u = (None, page1) \<and> analyze page1 = (Inr results, page2)
      \<longrightarrow> length (violations (fst (scanPage goto analyze page u)))
            = length (ax_violations results)
        \<and> (\<forall>i < length (ax_violations results).
              vid (violations (fst (scanPage goto analyze page u)) ! i)
                = ax_id (ax_violations results ! i)
              \<and> (ax_impact (ax_violations results ! i) = None
                   \<longrightarrow> impact (violations (fst (scanPage goto analyze page u)) ! i) = minor)
              \<and> (\<forall>s. ax_impact (ax_violations results ! i) = Some s
                   \<longrightarrow> impact (violations (fst (scanPage goto analyze page u)) ! i) = s)))
   \<and> (\<forall>v \<in> set (violations (fst (scanPage goto analyze page u))).
         impact v \<in> {critical, serious, moderate, minor})"
proof (intro conjI impI)
  assume "goto page u = (None, page1) \<and> analyze page1 = (Inr results, page2)"
  then have v: "violations (fst (scanPage goto analyze page u))
      = map (toViolation u) (ax_violations results)"
    using scanPage_success [of goto page u page1 analyze results page2] by simp
  show "length (violations (fst (scanPage goto analyze page u))) = length (ax_violations results)"
    unfolding v by simp
  show "\<forall>i < length (ax_violations results).
              vid (violations (fst (scanPage goto analyze page u)) ! i)
                = ax_id (ax_violations results ! i)
              \<and> (ax_impact (ax_violations results ! i) = None
                   \<longrightarrow> impact (violations (fst (scanPage goto analyze page u)) ! i) = minor)
              \<and> (\<forall>s. ax_impact (ax_violations results ! i) = Some s
                   \<longrightarrow> impact (violations (fst (scanPage goto analyze page u)) ! i) = s)"
    unfolding v by (simp add: toViolation_def)
next
  show "\<forall>v \<in> set (violations (fst (scanPage goto analyze page u))).
         impact v \<in> {critical, serious, moderate, minor}"
  proof
    fix v :: Violation
    show "impact v \<in> {critical, serious, moderate, minor}"
      by (cases "impact v") simp_all
  qed
qed

theorem missing_impact_is_minor_witness:
  "ax_impact regionRule = None
   \<and> impact (violations (fst (scanPage exampleGoto exampleAnalyze ''about:blank''
        ''https://example.gov/'')) ! 1) = minor"
proof -
  have g: "exampleGoto ''about:blank'' ''https://example.gov/'' = (None, ''https://example.gov/'')"
    by (simp add: exampleGoto_def)
  have a: "exampleAnalyze ''https://example.gov/''
      = (Inr \<lparr>ax_violations = [imageAlt 3, regionRule], ax_passes = [], ax_incomplete = []\<rparr>,
         ''https://example.gov/'')"
    by (simp add: exampleAnalyze_def)
  from missing_impact_is_minor [of exampleGoto "''about:blank''" "''https://example.gov/''"
      "''https://example.gov/''" exampleAnalyze
      "\<lparr>ax_violations = [imageAlt 3, regionRule], ax_passes = [], ax_incomplete = []\<rparr>"
      "''https://example.gov/''"] g a
  have "\<forall>i<2. ax_impact ([imageAlt 3, regionRule] ! i) = None \<longrightarrow>
     impact (violations (fst (scanPage exampleGoto exampleAnalyze ''about:blank''
        ''https://example.gov/'')) ! i) = minor"
    by simp
  then have "ax_impact ([imageAlt 3, regionRule] ! 1) = None \<longrightarrow>
     impact (violations (fst (scanPage exampleGoto exampleAnalyze ''about:blank''
        ''https://example.gov/'')) ! 1) = minor"
    by simp
  then show ?thesis by (simp add: regionRule_def)
qed

section \<open>Aggregation\<close>

text \<open>
  Claim C4. For every summary that a run returns, the total used for grading equals the
  sum of the four severity counters; \<open>topIssues\<close> is the first ten entries of the
  ranking; and the total equals the sum of the counts over the whole ranking, before the
  truncation, when no rule identifier is the name of a member of \<open>Object.prototype\<close>
  (the rule identifiers of the engine are not).
\<close>

theorem violation_totals_agree:
  assumes "runFullAudit env baseUrl maxPages = Inr s"
  shows "totalViolations s
           = n_critical (bySeverity s) + n_serious (bySeverity s)
             + n_moderate (bySeverity s) + n_minor (bySeverity s)
    \<and> topIssues s = take 10 (rankIssues (snd (tally (allViolations s))))
    \<and> ((\<forall>v \<in> set (allViolations s). vid v \<notin> set objectPrototypeKeys)
         \<longrightarrow> totalViolations s
               = sum_list (map count (rankIssues (snd (tally (allViolations s))))))"
proof -
  from runFullAudit_Inr [OF assms] obtain h d us R V where
    s: "s = compileSummary h d us R V" by blast
  have t: "severityTotal (fst (tally V)) = length V
    \<and> ((\<forall>v \<in> set V. vid v \<notin> set objectPrototypeKeys)
            \<longrightarrow> issueTotal (snd (tally V)) = length V)"
    using tally_totals [of "(\<lparr>n_critical = 0, n_serious = 0, n_moderate = 0, n_minor = 0\<rparr>, [])" V]
    by (simp add: tally_def severityTotal_def issueTotal_def)
  have f: "totalViolations s = length V" "bySeverity s = fst (tally V)"
    "topIssues s = take 10 (rankIssues (snd (tally V)))" "allViolations s = V"
    unfolding s by (simp_all add: compileSummary_def Let_def)
  from t f show ?thesis
    by (simp add: severityTotal_def rankIssues_total)
qed

theorem violation_totals_agree_witness:
  "totalViolations exampleSummary = 3
   \<and> n_critical (bySeverity exampleSummary) + n_serious (bySeverity exampleSummary)
       + n_moderate (bySeverity exampleSummary) + n_minor (bySeverity exampleSummary) = 3
   \<and> sum_list (map count (rankIssues (snd (tally (allViolations exampleSummary))))) = 3"
proof -
  have h: "\<forall>v \<in> set (allViolations exampleSummary). vid v \<notin> set objectPrototypeKeys"
    by (simp add: exampleSummary_def exampleViolations_def objectPrototypeKeys_def)
  have t: "totalViolations exampleSummary = 3" by (simp add: exampleSummary_def)
  from violation_totals_agree [OF example_run] h t show ?thesis by simp
qed

text \<open>
  Claim C2. For every list of records, each severity counter is the number of records
  of that severity: a record adds one to its counter and to the count of its rule,
  whatever its node count. On the example run, which returns \<open>exampleSummary\<close>, the
  critical counter is 2 while the node counts of the critical records sum to 4, and the
  ranking entry of \<open>image-alt\<close> has count 2 while the node counts of the \<open>image-alt\<close>
  records sum to 4.
\<close>

theorem severity_tally_counts_records:
  "n_critical (fst (tally vs)) = length (filter (\<lambda>v. impact v = critical) vs)
   \<and> n_serious (fst (tally vs)) = length (filter (\<lambda>v. impact v = serious) vs)
   \<and> n_moderate (fst (tally vs)) = length (filter (\<lambda>v. impact v = moderate) vs)
   \<and> n_minor (fst (tally vs)) = length (filter (\<lambda>v. impact v = minor) vs)
   \<and> runFullAudit exampleEnv ''https://example.gov'' 10 = Inr exampleSummary
   \<and> n_critical (bySeverity exampleSummary) = 2
   \<and> sum_list (map nodeCount (filter (\<lambda>v. impact v = critical) (allViolations exampleSummary)))
       = 4
   \<and> map count (filter (\<lambda>e. rule e = ''image-alt'') (topIssues exampleSummary)) = [2]
   \<and> sum_list (map nodeCount (filter (\<lambda>v. vid v = ''image-alt'') (allViolations exampleSummary)))
       = 4"
  unfolding example_run tally_counts_records
  by (simp add: exampleSummary_def exampleViolations_def)

text \<open>
  Claim C3, on the example run. Of the three outcomes two are not failures and one is.
  The summary has \<open>pagesScanned = 3\<close>, the number of URLs, and \<open>pagesWithErrors = 1\<close>,
  so the two counts sum to 4, not to 3. A failure whose message is the empty string is
  not counted in \<open>pagesWithErrors\<close>.
\<close>

theorem pages_scanned_counts_failures:
  "runFullAudit exampleEnv ''https://example.gov'' 10 = Inr exampleSummary
   \<and> fst (scanLoop exampleGoto exampleAnalyze ''about:blank''
        [''https://example.gov/'', ''https://example.gov/contact'', ''https://example.gov/slow'']
        [] []) = exampleOutcomes
   \<and> length (filter (\<lambda>r. error r = None) exampleOutcomes) = 2
   \<and> length (filter (\<lambda>r. error r \<noteq> None) exampleOutcomes) = 1
   \<and> pagesScanned exampleSummary = 3
   \<and> pagesWithErrors exampleSummary = 1
   \<and> pagesScanned exampleSummary + pagesWithErrors exampleSummary = 4
   \<and> pagesWithErrors (compileSummary ''example.gov'' ''2025-01-01T00:00:00.000Z''
        [''https://example.gov/slow'']
        [failedPage ''https://example.gov/slow'' (ErrorObject [])] []) = 0"
  unfolding example_run example_scan
  by (simp add: exampleSummary_def exampleOutcomes_def compileSummary_def failedPage_def Let_def)

end
